theory Spec2Isabelle
  imports Main "HOL-Library.Word" "HOL-Library.Char_ord" "HOL-Library.List_Lexorder"
    "HOL-Library.Multiset"
begin

unbundle bit_operations_syntax

section \<open>JavaScript values used by the hash engine\<close>

text \<open>
  A JavaScript string is a sequence of 16-bit code units. The bitwise operators of
  JavaScript work on the 32-bit reading of a number (\<open>ToInt32\<close>, \<open>ToUint32\<close>) and
  every sum the engine forms stays far below \<open>2 ^ 53\<close> before it is cut back with
  \<open>& 0xffffffff\<close>, so numbers that pass through those operators are 32-bit words with
  wrap-around addition. Shift counts are taken modulo 32, as the language does.
  Lengths and offsets are natural numbers.
\<close>

type_synonym jsstring = "16 word list"
type_synonym block = "32 word list"

definition jsstr :: "string \<Rightarrow> jsstring" where
  "jsstr s = map (\<lambda>c. of_nat (of_char c)) s"

definition binstr :: "8 word list \<Rightarrow> jsstring" where
  "binstr bs = map ucast bs"

definition fromCharCode :: "32 word \<Rightarrow> 16 word" where
  "fromCharCode n = ucast n"

definition shl :: "32 word \<Rightarrow> nat \<Rightarrow> 32 word" where
  "shl x n = push_bit (n mod 32) x"

definition ushr :: "32 word \<Rightarrow> nat \<Rightarrow> 32 word" where
  "ushr x n = drop_bit (n mod 32) x"

text \<open>Array store \<open>a[j] = v\<close>: inside the array it overwrites, at \<open>j = a.length\<close> it
  extends the array by one element (the engine never writes further out).\<close>

definition set_at :: "'a list \<Rightarrow> nat \<Rightarrow> 'a \<Rightarrow> 'a list" where
  "set_at xs j v = (if j < length xs then xs[j := v] else xs @ [v])"

section \<open>The streaming SHA-1 engine (lib/hashes/sha1.js)\<close>

record results =
  h0 :: "32 word"
  h1 :: "32 word"
  h2 :: "32 word"
  h3 :: "32 word"
  h4 :: "32 word"

text \<open>The instance. \<open>feedReplaced\<close> records that \<open>finalize\<close> has overwritten the
  instance's own \<open>feed\<close> property with the throwing function.\<close>

record Sha1 =
  aResults :: results
  aLastBlock :: "block option"
  nAccumulatedMessageLength :: nat
  feedReplaced :: bool

datatype error = Error string

definition new_Sha1 :: Sha1 where
  "new_Sha1 = \<lparr> aResults = \<lparr> h0 = 0x67452301, h1 = 0xEFCDAB89, h2 = 0x98BADCFE,
                              h3 = 0x10325476, h4 = 0xC3D2E1F0 \<rparr>,
                aLastBlock = None,
                nAccumulatedMessageLength = 0,
                feedReplaced = False \<rparr>"

definition leftRotate :: "32 word \<Rightarrow> nat \<Rightarrow> 32 word" where
  "leftRotate nInput nOffset = shl nInput nOffset OR ushr nInput (32 - nOffset)"

definition logicalFunctions :: "(32 word \<Rightarrow> 32 word \<Rightarrow> 32 word \<Rightarrow> 32 word) list" where
  "logicalFunctions =
    [ \<lambda>nChunkB nChunkC nChunkD. (nChunkB AND nChunkC) OR ((NOT nChunkB) AND nChunkD),
      \<lambda>nChunkB nChunkC nChunkD. nChunkB XOR nChunkC XOR nChunkD,
      \<lambda>nChunkB nChunkC nChunkD.
         (nChunkB AND nChunkC) OR (nChunkB AND nChunkD) OR (nChunkC AND nChunkD),
      \<lambda>nChunkB nChunkC nChunkD. nChunkB XOR nChunkC XOR nChunkD ]"

definition constants :: "32 word list" where
  "constants = [0x5A827999, 0x6ED9EBA1, 0x8F1BBCDC, 0xCA62C1D6]"

text \<open>\<open>utf8Encode\<close>: two global replacements, one after the other.\<close>

definition utf8Encode :: "jsstring \<Rightarrow> jsstring" where
  "utf8Encode sInput =
    (let sInput = concat (map (\<lambda>c. if 0x80 \<le> c \<and> c \<le> 0x7ff
                                     then [0xc0 OR drop_bit 6 c, 0x80 OR (c AND 0x3f)]
                                     else [c]) sInput);
         sInput = concat (map (\<lambda>c. if 0x800 \<le> c
                                     then [0xe0 OR drop_bit 12 c,
                                           0x80 OR (drop_bit 6 c AND 0x3f),
                                           0x80 OR (c AND 0x3f)]
                                     else [c]) sInput)
     in sInput)"

text \<open>\<open>+sInput.charCodeAt(k)\<close> under a bitwise operator: the code unit, or \<open>NaN\<close>
  (read as 0) past the end of the string.\<close>

definition charCodeAt :: "jsstring \<Rightarrow> nat \<Rightarrow> 32 word" where
  "charCodeAt sInput k = (if k < length sInput then ucast (sInput ! k) else 0)"

definition chunk :: "jsstring \<Rightarrow> block list" where
  "chunk sInput =
    (let nBlocks = (length sInput + 63) div 64
     in map (\<lambda>i. map (\<lambda>j. shl (charCodeAt sInput (i * 64 + j * 4)) 24 OR
                           shl (charCodeAt sInput (i * 64 + j * 4 + 1)) 16 OR
                           shl (charCodeAt sInput (i * 64 + j * 4 + 2)) 8 OR
                           charCodeAt sInput (i * 64 + j * 4 + 3)) [0..<16]) [0..<nBlocks])"

definition extend :: "block \<Rightarrow> block" where
  "extend aBlock =
    fold (\<lambda>j w. set_at w j
            (leftRotate (w ! (j - 3) XOR w ! (j - 8) XOR w ! (j - 14) XOR w ! (j - 16)) 1))
         [16..<80] aBlock"

type_synonym regs = "32 word \<times> 32 word \<times> 32 word \<times> 32 word \<times> 32 word"

definition round_step :: "block \<Rightarrow> nat \<Rightarrow> regs \<Rightarrow> regs" where
  "round_step w j r =
    (case r of (nChunkA, nChunkB, nChunkC, nChunkD, nChunkE) \<Rightarrow>
      let nFunctionIndex = j div 20;
          nTemp = (logicalFunctions ! nFunctionIndex) nChunkB nChunkC nChunkD;
          nCurrentConstant = constants ! nFunctionIndex;
          nTemp = leftRotate nChunkA 5 + nTemp + nChunkE + nCurrentConstant + w ! j
      in (nTemp, nChunkA, leftRotate nChunkB 30, nChunkC, nChunkD))"

text \<open>One pass of the outer loop of \<open>feedHashWithBlocks\<close>.\<close>

definition feedBlock :: "block \<Rightarrow> results \<Rightarrow> results" where
  "feedBlock aBlock r =
    (let w = extend aBlock
     in case fold (round_step w) [0..<80] (h0 r, h1 r, h2 r, h3 r, h4 r) of
          (nChunkA, nChunkB, nChunkC, nChunkD, nChunkE) \<Rightarrow>
            \<lparr> h0 = h0 r + nChunkA, h1 = h1 r + nChunkB, h2 = h2 r + nChunkC,
              h3 = h3 r + nChunkD, h4 = h4 r + nChunkE \<rparr>)"

definition feedHashWithBlocks :: "block list \<Rightarrow> Sha1 \<Rightarrow> Sha1" where
  "feedHashWithBlocks aWords this =
    this \<lparr> aResults := fold feedBlock aWords (aResults this) \<rparr>"

definition createEmptyBlock :: block where
  "createEmptyBlock = replicate 16 0"

definition padLastBlock :: "Sha1 \<Rightarrow> block \<Rightarrow> block list" where
  "padLastBlock this aLastBlock0 =
    (let n = nAccumulatedMessageLength this;
         nPaddingByteByte0 = n mod 4;
         nPaddingByteWord0 = (n div 4) mod 16;
         (aReturn, aLastBlock, nPaddingByteWord, nPaddingByteByte) =
           (if 0 = nPaddingByteWord0 \<and> 0 = nPaddingByteByte0
            then ([aLastBlock0], createEmptyBlock, 0, 0)
            else ([], aLastBlock0, nPaddingByteWord0, nPaddingByteByte0));
         aLastBlock = set_at aLastBlock nPaddingByteWord
                        (aLastBlock ! nPaddingByteWord OR shl 0x80 (24 - nPaddingByteByte * 8));
         (aReturn, aLastBlock) =
           (if nPaddingByteWord > 13 then (aReturn @ [aLastBlock], createEmptyBlock)
            else (aReturn, aLastBlock));
         aLastBlock = set_at aLastBlock 14 (of_nat (n div 2 ^ 29));
         aLastBlock = set_at aLastBlock 15 (of_nat (n * 8))
     in aReturn @ [aLastBlock])"

definition extractBlock :: "block \<Rightarrow> nat \<Rightarrow> jsstring" where
  "extractBlock aBlock nLengthPayload =
    (let nLastUsedWord = nLengthPayload div 4;
         nLastUsedByteInWord = int nLengthPayload - int nLastUsedWord * 4 - 1
     in if 0 = nLengthPayload then []
        else concat (map (\<lambda>i.
               let nLastByte = (if i = nLastUsedWord then nLastUsedByteInWord else 3)
               in map (\<lambda>j. fromCharCode (ushr (aBlock ! i) (24 - nat j * 8) AND 0xff))
                      [0..nLastByte])
             [0..<Suc nLastUsedWord]))"

text \<open>\<open>nChunk.toString(16)\<close> for the four-bit values it is called with.\<close>

definition toString16 :: "32 word \<Rightarrow> jsstring" where
  "toString16 nChunk = [jsstr ''0123456789abcdef'' ! unat nChunk]"

definition binaryToHexString :: "32 word \<Rightarrow> jsstring" where
  "binaryToHexString nInput =
    concat (map (\<lambda>i. toString16 (ushr nInput (i * 4) AND 0xf)) (rev [0..<8]))"

definition formatHashHex :: "Sha1 \<Rightarrow> jsstring" where
  "formatHashHex this =
    binaryToHexString (h0 (aResults this)) @
    binaryToHexString (h1 (aResults this)) @
    binaryToHexString (h2 (aResults this)) @
    binaryToHexString (h3 (aResults this)) @
    binaryToHexString (h4 (aResults this))"

definition formatHashBinary :: "Sha1 \<Rightarrow> jsstring" where
  "formatHashBinary this =
    (let aParts = [h0 (aResults this), h1 (aResults this), h2 (aResults this),
                   h3 (aResults this), h4 (aResults this)]
     in concat (map (\<lambda>i. map (\<lambda>j. fromCharCode (ushr (aParts ! i) (24 - j * 8) AND 0xff))
                              [0..<4]) [0..<5]))"

text \<open>\<open>Sha1.prototype.feed\<close>. \<open>aWords.pop()\<close> of an empty array is \<open>undefined\<close>,
  which later tests read as "no last block".\<close>

definition prototype_feed :: "Sha1 \<Rightarrow> jsstring \<Rightarrow> bool \<Rightarrow> Sha1" where
  "prototype_feed this sInput0 bUnicode =
    (if sInput0 = [] then this
     else
      let sInput = (if bUnicode then utf8Encode sInput0 else sInput0);
          sFeed = (case aLastBlock this of
                     Some b \<Rightarrow>
                       extractBlock b
                         (if nAccumulatedMessageLength this mod 64 = 0 then 64
                          else nAccumulatedMessageLength this mod 64) @ sInput
                   | None \<Rightarrow> sInput);
          aWords = chunk sFeed;
          this = this \<lparr> aLastBlock := (if aWords = [] then None else Some (last aWords)),
                        nAccumulatedMessageLength :=
                          nAccumulatedMessageLength this + length sInput \<rparr>
      in feedHashWithBlocks (butlast aWords) this)"

text \<open>A call \<open>oSha1.feed(sInput, bUnicode)\<close>: the instance's own property, once
  \<open>finalize\<close> has set it, shadows the prototype method and throws.\<close>

definition feed :: "Sha1 \<Rightarrow> jsstring \<Rightarrow> bool \<Rightarrow> error + Sha1" where
  "feed this sInput bUnicode =
    (if feedReplaced this
     then Inl (Error ''You cannot feed an already finalized hash again.'')
     else Inr (prototype_feed this sInput bUnicode))"

definition finalize :: "Sha1 \<Rightarrow> bool \<Rightarrow> jsstring \<times> Sha1" where
  "finalize this0 bRaw =
    (let this = (case aLastBlock this0 of
                   Some b \<Rightarrow> (feedHashWithBlocks (padLastBlock this0 b) this0)
                               \<lparr> aLastBlock := None \<rparr>
                 | None \<Rightarrow> this0);
         this = this \<lparr> feedReplaced := True \<rparr>
     in (if bRaw then formatHashBinary this else formatHashHex this, this))"

text \<open>A sequence of \<open>feed\<close> calls on one instance; the first throw ends it.\<close>

fun feeds :: "Sha1 \<Rightarrow> jsstring list \<Rightarrow> error + Sha1" where
  "feeds this [] = Inr this"
| "feeds this (s # ss) =
     (case feed this s False of Inl e \<Rightarrow> Inl e | Inr this' \<Rightarrow> feeds this' ss)"

text \<open>Feed the pieces to a fresh instance, then finalize.\<close>

definition digest :: "jsstring list \<Rightarrow> bool \<Rightarrow> error + jsstring" where
  "digest ss bRaw =
    (case feeds new_Sha1 ss of Inl e \<Rightarrow> Inl e | Inr this \<Rightarrow> Inr (fst (finalize this bRaw)))"

section \<open>Auxiliary notions for the statements and proofs about the hash engine\<close>

text \<open>The rendering the specification speaks of: a character code as two lowercase
  hexadecimal digits, and a binary string as the concatenation of these pairs.\<close>

definition hexpair :: "16 word \<Rightarrow> jsstring" where
  "hexpair c = [jsstr ''0123456789abcdef'' ! (unat c div 16),
                jsstr ''0123456789abcdef'' ! (unat c mod 16)]"

definition hexOfBinary :: "jsstring \<Rightarrow> jsstring" where
  "hexOfBinary s = concat (map hexpair s)"

text \<open>The four bytes of a word, most significant first (the inner loop of
  \<open>formatHashBinary\<close>).\<close>

definition wordBytes :: "32 word \<Rightarrow> jsstring" where
  "wordBytes h = map (\<lambda>j. fromCharCode (ushr h (24 - j * 8) AND 0xff)) [0..<4]"

text \<open>The unprocessed bytes an instance holds: what the next \<open>feed\<close> call extracts from
  the retained block and puts in front of its input.\<close>

definition pending :: "Sha1 \<Rightarrow> jsstring" where
  "pending this =
    (case aLastBlock this of
       None \<Rightarrow> []
     | Some b \<Rightarrow> extractBlock b (if nAccumulatedMessageLength this mod 64 = 0 then 64
                                  else nAccumulatedMessageLength this mod 64))"

text \<open>The word \<open>chunk\<close> builds from four consecutive code units, and the block it builds
  from sixty-four.\<close>

definition wordAt :: "jsstring \<Rightarrow> nat \<Rightarrow> 32 word" where
  "wordAt s k = shl (charCodeAt s k) 24 OR shl (charCodeAt s (k + 1)) 16 OR
                shl (charCodeAt s (k + 2)) 8 OR charCodeAt s (k + 3)"

definition blockAt :: "jsstring \<Rightarrow> nat \<Rightarrow> block" where
  "blockAt s i = map (\<lambda>j. wordAt s (i * 64 + j * 4)) [0..<16]"

text \<open>The byte \<open>extractBlock\<close> reads at byte position \<open>p\<close> of a block.\<close>

definition byteAt :: "block \<Rightarrow> nat \<Rightarrow> 16 word" where
  "byteAt b p = fromCharCode (ushr (b ! (p div 4)) (24 - (p mod 4) * 8) AND 0xff)"

text \<open>The state of a fresh instance after the bytes \<open>bs\<close> have been fed to it, in
  closed form: every block but the last has been compressed, the last one is retained.\<close>

definition fed :: "8 word list \<Rightarrow> Sha1" where
  "fed bs =
    (if bs = [] then new_Sha1
     else \<lparr> aResults = fold feedBlock (butlast (chunk (binstr bs))) (aResults new_Sha1),
            aLastBlock = Some (last (chunk (binstr bs))),
            nAccumulatedMessageLength = length bs,
            feedReplaced = False \<rparr>)"

text \<open>A byte of a byte sequence, 0 past its end.\<close>

definition byteOr0 :: "8 word list \<Rightarrow> nat \<Rightarrow> 8 word" where
  "byteOr0 bs k = (if k < length bs then bs ! k else 0)"

text \<open>Where the retained block starts in a stream of \<open>n\<close> bytes.\<close>

definition lastStart :: "nat \<Rightarrow> nat" where
  "lastStart n = 64 * ((n - 1) div 64)"

text \<open>The message schedule as a sliding window of sixteen words, and the eighty rounds as
  four folds over the schedule: forms of \<open>extend\<close> and of the round loop that evaluate
  without indexing into long lists.\<close>

fun schedule :: "nat \<Rightarrow> block \<Rightarrow> block" where
  "schedule 0 win = []"
| "schedule (Suc n) win =
     (let v = leftRotate (win ! 13 XOR win ! 8 XOR win ! 2 XOR win ! 0) 1
      in v # schedule n (tl win @ [v]))"

definition round_with ::
  "(32 word \<Rightarrow> 32 word \<Rightarrow> 32 word \<Rightarrow> 32 word) \<Rightarrow> 32 word \<Rightarrow> 32 word \<Rightarrow> regs \<Rightarrow> regs" where
  "round_with f k x r =
    (case r of (a, b, c, d, e) \<Rightarrow>
       (leftRotate a 5 + f b c d + e + k + x, a, leftRotate b 30, c, d))"

definition rounds80 :: "block \<Rightarrow> regs \<Rightarrow> regs" where
  "rounds80 w r =
    fold (round_with (logicalFunctions ! 3) (constants ! 3)) (take 20 (drop 60 w))
      (fold (round_with (logicalFunctions ! 2) (constants ! 2)) (take 20 (drop 40 w))
        (fold (round_with (logicalFunctions ! 1) (constants ! 1)) (take 20 (drop 20 w))
          (fold (round_with (logicalFunctions ! 0) (constants ! 0)) (take 20 w) r)))"

text \<open>Markers used when evaluating on numerals: \<open>norm32\<close> is the identity, rewritten
  only on numerals (to their value below \<open>2 ^ 32\<close>); \<open>sched_cons\<close> makes the new schedule
  word a value before it is used twice.\<close>

definition norm32 :: "32 word \<Rightarrow> 32 word" where "norm32 w = w"

definition sched_cons :: "32 word \<Rightarrow> nat \<Rightarrow> block \<Rightarrow> block" where
  "sched_cons v n win = v # schedule n (tl win @ [v])"

section \<open>Properties of the hash engine\<close>

subsection \<open>Evaluation helpers\<close>

lemma upt_0_8: "[0..<8] = [0, 1, 2, 3, 4, 5, 6, 7]"
  by code_simp

lemma hexdigits:
  "jsstr ''0123456789abcdef'' = [48,49,50,51,52,53,54,55,56,57,97,98,99,100,101,102]"
  by (simp add: jsstr_def)

lemma formatHashHex_new:
  "formatHashHex new_Sha1 = jsstr ''67452301efcdab8998badcfe10325476c3d2e1f0''"
  by (simp add: formatHashHex_def new_Sha1_def binaryToHexString_def toString16_def
        upt_0_8 ushr_def hexdigits)
     (simp add: jsstr_def)

lemma feeds_empty:
  "\<forall>s\<in>set ss. s = [] \<Longrightarrow> \<not> feedReplaced this \<Longrightarrow> feeds this ss = Inr this"
  by (induction ss) (simp_all add: feed_def prototype_feed_def)

subsection \<open>Finalizing an instance that was never fed\<close>

text \<open>
  C10. If \<open>finalize\<close> is called on an instance into which no bytes were fed (no
  \<open>feed\<close> call, or only calls with the empty string), no last block was retained,
  the padding step is skipped, and the digest is the rendering of the initialisation
  constants, \<open>67452301efcdab8998badcfe10325476c3d2e1f0\<close>, which is not the RFC 3174
  digest of the empty message, \<open>da39a3ee5e6b4b0d3255bfef95601890afd80709\<close>.
\<close>

theorem finalize_unfed:
  assumes "\<forall>s\<in>set ss. s = []"
  shows "digest ss False = Inr (jsstr ''67452301efcdab8998badcfe10325476c3d2e1f0'')
       \<and> aLastBlock new_Sha1 = None
       \<and> jsstr ''67452301efcdab8998badcfe10325476c3d2e1f0''
           \<noteq> jsstr ''da39a3ee5e6b4b0d3255bfef95601890afd80709''"
proof -
  have "feeds new_Sha1 ss = Inr new_Sha1"
    using assms by (intro feeds_empty) (simp_all add: new_Sha1_def)
  then have "digest ss False = Inr (jsstr ''67452301efcdab8998badcfe10325476c3d2e1f0'')"
    by (simp add: digest_def finalize_def formatHashHex_new[symmetric])
       (simp add: new_Sha1_def formatHashHex_def)
  moreover have "jsstr ''67452301efcdab8998badcfe10325476c3d2e1f0''
                  \<noteq> jsstr ''da39a3ee5e6b4b0d3255bfef95601890afd80709''"
    by (simp add: jsstr_def)
  moreover have "aLastBlock new_Sha1 = None"
    by (simp add: new_Sha1_def)
  ultimately show ?thesis by blast
qed

theorem finalize_unfed_witness:
  "digest [[], []] False = Inr (jsstr ''67452301efcdab8998badcfe10325476c3d2e1f0'')"
  using finalize_unfed [of "[[], []]"] by simp

subsection \<open>Feeding after finalization\<close>

text \<open>
  C7. On every instance on which \<open>finalize\<close> has been called, every later \<open>feed\<close>
  call throws, whatever input it is given; the call returns no new state, so the digest
  state is left as it was.
\<close>

theorem feed_after_finalize:
  "feed (snd (finalize this bRaw)) sInput bUnicode
     = Inl (Error ''You cannot feed an already finalized hash again.'')"
  by (simp add: feed_def finalize_def Let_def split: option.splits)

subsection \<open>Hexadecimal and binary output\<close>

lemma unat_and_ff: "unat ((y :: 32 word) AND 0xff) = unat y mod 256"
proof -
  have "(y AND 0xff) = take_bit 8 y"
    by (simp add: take_bit_eq_mask mask_eq_exp_minus_1)
  then show ?thesis
    by (simp add: take_bit_eq_mod unat_mod_distrib)
qed

lemma unat_and_f: "unat ((y :: 32 word) AND 0xf) = unat y mod 16"
proof -
  have "(y AND 0xf) = take_bit 4 y"
    by (simp add: take_bit_eq_mask mask_eq_exp_minus_1)
  then show ?thesis
    by (simp add: take_bit_eq_mod unat_mod_distrib)
qed

lemma unat_charcode: "unat (fromCharCode ((y :: 32 word) AND 0xff)) = unat y mod 256"
proof -
  have "unat (ucast (y AND 0xff) :: 16 word) = unat (y AND 0xff) mod 2 ^ 16"
    by (simp add: unsigned_ucast_eq take_bit_eq_mod)
  then show ?thesis
    by (simp add: fromCharCode_def unat_and_ff)
qed

lemma unat_drop_bit32: "unat (drop_bit n (y :: 32 word)) = unat y div 2 ^ n"
  by (metis drop_bit_eq_div unat_drop_bit_eq)

lemma upt_0_4: "[0..<4] = [0, 1, 2, 3]"
  by code_simp

lemma upt_0_5: "[0..<5] = [0, 1, 2, 3, 4]"
  by code_simp

lemma nibble_hi: "(m :: nat) mod 256 div 16 = m div 16 mod 16"
proof -
  have "m mod 256 = 16 * (m div 16 mod 16) + m mod 16"
    using mod_mult2_eq[of m 16 16] by simp
  then show ?thesis by simp
qed

lemma nibble_lo: "(m :: nat) mod 256 mod 16 = m mod 16"
  by (simp add: mod_mod_cancel)

lemma div_div_nat: "(n :: nat) div a div b = n div (a * b)"
  by (simp add: div_mult2_eq)

lemma hexOfBinary_append: "hexOfBinary (a @ b) = hexOfBinary a @ hexOfBinary b"
  by (simp add: hexOfBinary_def)

lemma formatHashBinary_bytes:
  "formatHashBinary this =
     wordBytes (h0 (aResults this)) @ wordBytes (h1 (aResults this)) @
     wordBytes (h2 (aResults this)) @ wordBytes (h3 (aResults this)) @
     wordBytes (h4 (aResults this))"
  by (simp add: formatHashBinary_def upt_0_5 wordBytes_def)

lemma wordBytes_eq:
  "wordBytes h = [fromCharCode (drop_bit 24 h AND 0xff), fromCharCode (drop_bit 16 h AND 0xff),
                  fromCharCode (drop_bit 8 h AND 0xff), fromCharCode (h AND 0xff)]"
  by (simp add: wordBytes_def upt_0_4 ushr_def)

lemma binaryToHexString_eq:
  "binaryToHexString h = concat (map (\<lambda>n. toString16 (drop_bit n h AND 0xf)) [28, 24, 20, 16, 12, 8, 4, 0])"
  by (simp add: binaryToHexString_def upt_0_8 ushr_def)

lemma hex_of_word: "binaryToHexString h = hexOfBinary (wordBytes h)"
  by (simp add: binaryToHexString_eq wordBytes_eq hexOfBinary_def hexpair_def toString16_def
        unat_charcode unat_and_f unat_drop_bit32 nibble_hi nibble_lo div_div_nat)

lemma format_consistent: "formatHashHex this = hexOfBinary (formatHashBinary this)"
  by (simp only: formatHashHex_def formatHashBinary_bytes hexOfBinary_append hex_of_word)

text \<open>
  C9. For every fed input, the 20-character binary string returned by
  \<open>finalize(true)\<close>, with each character code rendered as two lowercase hexadecimal
  digits, is the 40-character string returned by \<open>finalize(false)\<close> on an instance
  in the same state: both render the same five accumulator words.
\<close>

theorem binary_hex_consistent:
  "fst (finalize this False) = hexOfBinary (fst (finalize this True))
   \<and> length (fst (finalize this True)) = 20
   \<and> length (fst (finalize this False)) = 40
   \<and> digest ss False = map_sum id hexOfBinary (digest ss True)"
proof -
  have fin: "fst (finalize this False) = hexOfBinary (fst (finalize this True))" for this
    by (simp add: finalize_def Let_def format_consistent)
  have len: "length (fst (finalize this True)) = 20" for this
    by (simp add: finalize_def Let_def formatHashBinary_bytes wordBytes_eq)
  have "length (hexOfBinary s) = 2 * length s" for s
    by (induction s) (simp_all add: hexOfBinary_def hexpair_def)
  then have len': "length (fst (finalize this False)) = 40" for this
    by (simp add: fin len)
  have "digest ss False = map_sum id hexOfBinary (digest ss True)"
    by (cases "feeds new_Sha1 ss") (simp_all add: digest_def fin)
  then show ?thesis
    using fin len len' by blast
qed

subsection \<open>Blocks and bytes\<close>

lemma chunk_blockAt: "chunk s = map (blockAt s) [0..<(length s + 63) div 64]"
  by (simp add: chunk_def blockAt_def wordAt_def add.assoc)

lemma charCodeAt_append_right:
  "length a \<le> k \<Longrightarrow> charCodeAt (a @ b) k = charCodeAt b (k - length a)"
  by (auto simp add: charCodeAt_def nth_append)

lemma charCodeAt_append_left:
  "k < length a \<Longrightarrow> charCodeAt (a @ b) k = charCodeAt a k"
  by (simp add: charCodeAt_def nth_append)

lemma wordAt_append_right:
  "length a \<le> k \<Longrightarrow> wordAt (a @ b) k = wordAt b (k - length a)"
  by (simp add: wordAt_def charCodeAt_append_right Suc_diff_le)

lemma wordAt_append_left:
  "k + 3 < length a \<Longrightarrow> wordAt (a @ b) k = wordAt a k"
  by (simp add: wordAt_def charCodeAt_append_left)

lemma blockAt_append_right:
  "length a = 64 * q \<Longrightarrow> blockAt (a @ b) (q + i) = blockAt b i"
  by (simp add: blockAt_def wordAt_append_right algebra_simps)

lemma blockAt_append_left:
  assumes "length a = 64 * q" "i < q"
  shows "blockAt (a @ b) i = blockAt a i"
proof -
  have "wordAt (a @ b) (i * 64 + j * 4) = wordAt a (i * 64 + j * 4)" if "j < 16" for j
    using assms that by (intro wordAt_append_left) linarith
  then show ?thesis
    by (simp add: blockAt_def)
qed

lemma chunk_append:
  assumes "length a = 64 * q"
  shows "chunk (a @ b) = chunk a @ chunk b"
proof -
  let ?n = "(length b + 63) div 64"
  have nb: "(length (a @ b) + 63) div 64 = q + ?n"
    using assms by simp
  have na: "(length a + 63) div 64 = q"
    using assms by simp
  have "[0..<q + ?n] = [0..<q] @ map (\<lambda>i. i + q) [0..<?n]"
    using upt_add_eq_append[of 0 q ?n] by (simp add: map_add_upt add.commute)
  then have "chunk (a @ b) = map (blockAt (a @ b)) [0..<q] @ map (\<lambda>i. blockAt (a @ b) (q + i)) [0..<?n]"
    by (simp add: chunk_blockAt nb comp_def add.commute del: length_append)
  also have "map (blockAt (a @ b)) [0..<q] = map (blockAt a) [0..<q]"
    using assms by (simp add: blockAt_append_left)
  also have "map (\<lambda>i. blockAt (a @ b) (q + i)) [0..<?n] = map (blockAt b) [0..<?n]"
    using assms by (simp add: blockAt_append_right)
  finally show ?thesis
    by (simp add: chunk_blockAt na)
qed

lemma chunk_short:
  assumes "0 < length r" "length r \<le> 64"
  shows "chunk r = [blockAt r 0]"
proof -
  have "(length r + 63) div 64 = 1"
    using assms by arith
  then show ?thesis
    by (simp add: chunk_blockAt)
qed

lemma upto_as_upt: "[0..int m - 1] = map int [0..<m]"
proof (induction m)
  case 0
  then show ?case by simp
next
  case (Suc m)
  have "[0..int (Suc m) - 1] = [0..int m - 1] @ [int m]"
    using upto_rec2[of 0 "int m"] by simp
  then show ?case
    using Suc by simp
qed

lemma concat_groups4: "concat (map (\<lambda>i. map (\<lambda>j. g (4 * i + j)) [0..<4]) [0..<q]) = map g [0..<4 * q]"
proof (induction q)
  case 0
  then show ?case by simp
next
  case (Suc q)
  have "[0..<4 * Suc q] = [0..<4 * q] @ map (\<lambda>j. 4 * q + j) [0..<4]"
    using upt_add_eq_append[of 0 "4 * q" 4] map_add_upt[of "4 * q" 4]
    by (simp add: add.commute)
  then show ?case
    using Suc by (simp add: comp_def)
qed

lemma byteAt_split:
  "j < 4 \<Longrightarrow> fromCharCode (ushr (b ! i) (24 - j * 8) AND 0xff) = byteAt b (4 * i + j)"
  by (simp add: byteAt_def)

lemma word_bytes_map:
  "m \<le> 4 \<Longrightarrow>
   map (\<lambda>j. fromCharCode (ushr (b ! i) (24 - j * 8) AND 0xff)) [0..<m]
     = map (\<lambda>j. byteAt b (4 * i + j)) [0..<m]"
  by (rule map_cong) (auto simp add: byteAt_def)

lemma extractBlock_bytes: "extractBlock b n = map (byteAt b) [0..<n]"
proof (cases "n = 0")
  case True
  then show ?thesis by (simp add: extractBlock_def)
next
  case False
  let ?q = "n div 4"
  let ?g = "\<lambda>i j. fromCharCode (ushr (b ! i) (24 - j * 8) AND 0xff)"
  have last_eq: "int n - int ?q * 4 - 1 = int (n mod 4) - 1"
    by arith
  have three: "[0..(3::int)] = map int [0..<4]"
    using upto_as_upt[of 4] by simp
  have inner: "map (\<lambda>j. ?g i (nat j)) [0..(if i = ?q then int n - int ?q * 4 - 1 else 3)]
                 = map (?g i) (if i = ?q then [0..<n mod 4] else [0..<4])" for i
    by (simp add: last_eq upto_as_upt three comp_def)
  have "extractBlock b n =
          concat (map (\<lambda>i. map (?g i) (if i = ?q then [0..<n mod 4] else [0..<4])) [0..<Suc ?q])"
    using False unfolding extractBlock_def Let_def inner by simp
  also have "\<dots> = concat (map (\<lambda>i. map (?g i) [0..<4]) [0..<?q]) @ map (?g ?q) [0..<n mod 4]"
  proof -
    have h: "map (\<lambda>i. map (?g i) (if i = ?q then [0..<n mod 4] else [0..<4])) [0..<?q]
            = map (\<lambda>i. map (?g i) [0..<4]) [0..<?q]"
      by (rule map_cong) auto
    have "[0..<Suc ?q] = [0..<?q] @ [?q]"
      by simp
    then show ?thesis
      by (simp only: map_append concat_append h list.map concat.simps if_True append_Nil2 refl)
  qed
  also have "concat (map (\<lambda>i. map (?g i) [0..<4]) [0..<?q])
               = concat (map (\<lambda>i. map (\<lambda>j. byteAt b (4 * i + j)) [0..<4]) [0..<?q])"
    by (simp only: word_bytes_map[OF order_refl])
  also have "\<dots> = map (byteAt b) [0..<4 * ?q]"
    by (rule concat_groups4)
  also have "map (?g ?q) [0..<n mod 4] = map (\<lambda>j. byteAt b (4 * ?q + j)) [0..<n mod 4]"
    by (rule word_bytes_map) simp
  also have "\<dots> = map (byteAt b) (map (\<lambda>j. j + 4 * ?q) [0..<n mod 4])"
    by (simp add: comp_def add.commute)
  also have "map (\<lambda>j. j + 4 * ?q) [0..<n mod 4] = [4 * ?q..<n]"
    by (simp only: map_add_upt) (simp add: add.commute)
  also have "map (byteAt b) [0..<4 * ?q] @ map (byteAt b) [4 * ?q..<n] = map (byteAt b) [0..<n]"
    using upt_add_eq_append[of 0 "4 * ?q" "n mod 4"] by (simp flip: map_append)
  finally show ?thesis .
qed

lemma length_extractBlock: "length (extractBlock b n) = n"
  by (simp add: extractBlock_bytes)

lemma ff_mask: "(0xff :: 32 word) = mask 8"
  by (simp add: mask_eq_exp_minus_1)

lemma unpack0:
  fixes a b c d :: "8 word"
  shows "(ucast (drop_bit 24 (push_bit 24 (ucast a) OR push_bit 16 (ucast b) OR push_bit 8 (ucast c) OR ucast d :: 32 word) AND 0xff) :: 16 word) = ucast a"
  unfolding ff_mask
  by (rule bit_word_eqI) (auto simp add: bit_simps dest: bit_imp_le_length)

lemma unpack1:
  fixes a b c d :: "8 word"
  shows "(ucast (drop_bit 16 (push_bit 24 (ucast a) OR push_bit 16 (ucast b) OR push_bit 8 (ucast c) OR ucast d :: 32 word) AND 0xff) :: 16 word) = ucast b"
  unfolding ff_mask
  by (rule bit_word_eqI) (auto simp add: bit_simps dest: bit_imp_le_length)

lemma unpack2:
  fixes a b c d :: "8 word"
  shows "(ucast (drop_bit 8 (push_bit 24 (ucast a) OR push_bit 16 (ucast b) OR push_bit 8 (ucast c) OR ucast d :: 32 word) AND 0xff) :: 16 word) = ucast c"
  unfolding ff_mask
  by (rule bit_word_eqI) (auto simp add: bit_simps dest: bit_imp_le_length)

lemma unpack3:
  fixes a b c d :: "8 word"
  shows "(ucast ((push_bit 24 (ucast a) OR push_bit 16 (ucast b) OR push_bit 8 (ucast c) OR ucast d :: 32 word) AND 0xff) :: 16 word) = ucast d"
  unfolding ff_mask
  by (rule bit_word_eqI) (auto simp add: bit_simps dest: bit_imp_le_length)

lemma ucast_8_16_32: "(ucast (ucast (x :: 8 word) :: 16 word) :: 32 word) = ucast x"
  by (rule bit_word_eqI) (auto simp add: bit_simps dest: bit_imp_le_length)

lemma charCodeAt_binstr: "charCodeAt (binstr bs) k = ucast (byteOr0 bs k)"
  by (simp add: charCodeAt_def binstr_def byteOr0_def ucast_8_16_32)

lemma wordAt_binstr:
  "wordAt (binstr bs) k =
     push_bit 24 (ucast (byteOr0 bs k)) OR push_bit 16 (ucast (byteOr0 bs (k + 1))) OR
     push_bit 8 (ucast (byteOr0 bs (k + 2))) OR ucast (byteOr0 bs (k + 3))"
  by (simp add: wordAt_def charCodeAt_binstr shl_def)

lemma byteAt_blockAt0:
  assumes "p < 64"
  shows "byteAt (blockAt (binstr bs) 0) p = ucast (byteOr0 bs p)"
proof -
  let ?i = "p div 4"
  have i: "?i < 16"
    using assms by simp
  have w: "blockAt (binstr bs) 0 ! ?i = wordAt (binstr bs) (?i * 4)"
    using i by (simp add: blockAt_def)
  have p: "p = ?i * 4 + p mod 4"
    by simp
  consider "p mod 4 = 0" | "p mod 4 = 1" | "p mod 4 = 2" | "p mod 4 = 3"
    by arith
  then show ?thesis
  proof cases
    case 1
    then have "p = ?i * 4" using p by simp
    then show ?thesis
      using 1 unpack0 by (simp add: byteAt_def w wordAt_binstr ushr_def fromCharCode_def)
  next
    case 2
    then have "p = ?i * 4 + 1" using p by simp
    then show ?thesis
      using 2 unpack1 by (simp add: byteAt_def w wordAt_binstr ushr_def fromCharCode_def)
  next
    case 3
    then have "p = ?i * 4 + 2" using p by simp
    then show ?thesis
      using 3 unpack2 by (simp add: byteAt_def w wordAt_binstr ushr_def fromCharCode_def)
  next
    case 4
    then have "p = ?i * 4 + 3" using p by simp
    then show ?thesis
      using 4 unpack3 by (simp add: byteAt_def w wordAt_binstr ushr_def fromCharCode_def)
  qed
qed

lemma extractBlock_blockAt0:
  assumes "length r \<le> 64"
  shows "extractBlock (blockAt (binstr r) 0) (length r) = binstr r"
proof -
  have "map (byteAt (blockAt (binstr r) 0)) [0..<length r] = map (\<lambda>p. ucast (r ! p)) [0..<length r]"
    using assms by (intro map_cong refl) (simp add: byteAt_blockAt0 byteOr0_def)
  also have "\<dots> = map ucast (map (nth r) [0..<length r])"
    by (simp add: comp_def)
  also have "\<dots> = binstr r"
    by (simp only: map_nth binstr_def)
  finally show ?thesis
    by (simp add: extractBlock_bytes)
qed

subsection \<open>The state after a sequence of feed calls\<close>

lemma lastStart_le: "lastStart n \<le> n"
proof -
  have "64 * ((n - 1) div 64) \<le> n - 1"
    by (rule times_div_less_eq_dividend)
  then show ?thesis by (simp add: lastStart_def)
qed

lemma lastStart_Suc: "Suc m - lastStart (Suc m) = Suc (m mod 64)"
proof -
  have "m = 64 * (m div 64) + m mod 64"
    by simp
  then have "Suc m - 64 * (m div 64) = Suc (m mod 64)"
    by linarith
  then show ?thesis by (simp add: lastStart_def)
qed

lemma lastStart_tail: "0 < n \<Longrightarrow> 0 < n - lastStart n \<and> n - lastStart n \<le> 64"
proof -
  assume "0 < n"
  then obtain m where n: "n = Suc m" by (cases n) auto
  have "m mod 64 < 64" by simp
  then show ?thesis
    unfolding n lastStart_Suc by linarith
qed

lemma payload_length:
  "0 < n \<Longrightarrow> (if n mod 64 = 0 then 64 else n mod 64) = n - lastStart n"
proof -
  assume "0 < n"
  then obtain m where n: "n = Suc m" by (cases n) auto
  show ?thesis
    unfolding n lastStart_Suc by (simp add: mod_Suc)
qed

lemma binstr_append: "binstr (a @ b) = binstr a @ binstr b"
  by (simp add: binstr_def)

lemma length_binstr: "length (binstr a) = length a"
  by (simp add: binstr_def)

lemma chunk_nonempty: "s \<noteq> [] \<Longrightarrow> chunk s \<noteq> []"
proof -
  assume "s \<noteq> []"
  then have "0 < (length s + 63) div 64"
    by (cases s) simp_all
  then show ?thesis
    by (simp add: chunk_blockAt)
qed

lemma chunk_split_last:
  assumes "bs \<noteq> []"
  shows "chunk (binstr bs) =
           chunk (binstr (take (lastStart (length bs)) bs)) @
           [blockAt (binstr (drop (lastStart (length bs)) bs)) 0]"
proof -
  let ?k = "lastStart (length bs)"
  have len: "0 < length bs" using assms by simp
  have "length (binstr (take ?k bs)) = 64 * ((length bs - 1) div 64)"
    using lastStart_le[of "length bs"] by (simp add: length_binstr) (simp add: lastStart_def)
  then have "chunk (binstr (take ?k bs) @ binstr (drop ?k bs))
               = chunk (binstr (take ?k bs)) @ chunk (binstr (drop ?k bs))"
    by (rule chunk_append)
  moreover have "chunk (binstr (drop ?k bs)) = [blockAt (binstr (drop ?k bs)) 0]"
    using lastStart_tail[OF len] by (intro chunk_short) (simp_all add: length_binstr)
  moreover have "binstr (take ?k bs) @ binstr (drop ?k bs) = binstr bs"
    by (simp flip: binstr_append)
  ultimately show ?thesis by simp
qed

lemma pending_fed: "pending (fed bs) = binstr (drop (lastStart (length bs)) bs)"
proof (cases "bs = []")
  case True
  then show ?thesis
    by (simp add: pending_def fed_def new_Sha1_def binstr_def)
next
  case False
  then have len: "0 < length bs" by simp
  let ?r = "drop (lastStart (length bs)) bs"
  have r: "length ?r = length bs - lastStart (length bs)"
    by simp
  have pl: "(if length bs mod 64 = 0 then 64 else length bs mod 64) = length ?r"
    using payload_length[OF len] by (simp only: r)
  have "pending (fed bs) = extractBlock (blockAt (binstr ?r) 0) (length ?r)"
    using False
    by (simp add: pending_def fed_def chunk_split_last pl del: length_drop split del: if_split
          cong: if_cong)
  also have "\<dots> = binstr ?r"
    using lastStart_tail[OF len] by (intro extractBlock_blockAt0) simp
  finally show ?thesis .
qed

lemma fed_results:
  "aResults (fed bs) = fold feedBlock (chunk (binstr (take (lastStart (length bs)) bs))) (aResults new_Sha1)"
proof (cases "bs = []")
  case True
  then show ?thesis by (simp add: fed_def chunk_blockAt binstr_def)
next
  case False
  then show ?thesis
    by (simp add: fed_def chunk_split_last)
qed

lemma prototype_feed_fed:
  "prototype_feed (fed s) (binstr t) False = fed (s @ t)"
proof (cases "t = []")
  case True
  then show ?thesis by (simp add: prototype_feed_def binstr_def)
next
  case t: False
  then have bt: "binstr t \<noteq> []" by (simp add: binstr_def)
  show ?thesis
  proof (cases "s = []")
    case True
    then show ?thesis
      using t bt chunk_nonempty[OF bt]
      by (simp add: prototype_feed_def fed_def new_Sha1_def feedHashWithBlocks_def length_binstr
            Let_def)
  next
    case s: False
    let ?k = "lastStart (length s)"
    let ?a = "take ?k s" and ?r = "drop ?k s"
    have la: "length (binstr ?a) = 64 * ((length s - 1) div 64)"
      using lastStart_le[of "length s"] by (simp add: length_binstr) (simp add: lastStart_def)
    have sfeed: "pending (fed s) @ binstr t = binstr (?r @ t)"
      by (simp add: pending_fed binstr_append)
    have ne: "chunk (binstr (?r @ t)) \<noteq> []"
      using t by (intro chunk_nonempty) (simp add: binstr_def)
    have "s @ t = ?a @ (?r @ t)"
      by (metis append_assoc append_take_drop_id)
    then have "binstr (s @ t) = binstr ?a @ binstr (?r @ t)"
      by (metis binstr_append)
    then have whole: "chunk (binstr (s @ t)) = chunk (binstr ?a) @ chunk (binstr (?r @ t))"
      using chunk_append[OF la] by simp
    have pf: "prototype_feed (fed s) (binstr t) False =
            feedHashWithBlocks (butlast (chunk (pending (fed s) @ binstr t)))
              ((fed s)\<lparr>aLastBlock := (if chunk (pending (fed s) @ binstr t) = [] then None
                                          else Some (last (chunk (pending (fed s) @ binstr t)))),
                       nAccumulatedMessageLength := nAccumulatedMessageLength (fed s) + length (binstr t)\<rparr>)"
      using bt s by (simp add: prototype_feed_def pending_def fed_def Let_def)
    show ?thesis
      unfolding pf sfeed
      using ne s t
      by (simp add: feedHashWithBlocks_def fed_results whole butlast_append length_binstr)
         (simp add: fed_def whole butlast_append)
  qed
qed

lemma feedReplaced_fed: "\<not> feedReplaced (fed s)"
  by (simp add: fed_def new_Sha1_def)

lemma feeds_fed: "feeds (fed s) (map binstr ps) = Inr (fed (s @ concat ps))"
proof (induction ps arbitrary: s)
  case Nil
  then show ?case by simp
next
  case (Cons p ps)
  then show ?case
    by (simp add: feed_def feedReplaced_fed prototype_feed_fed)
qed

lemma feeds_new: "feeds new_Sha1 (map binstr ps) = Inr (fed (concat ps))"
  using feeds_fed[of "[]" ps] by (simp add: fed_def)

subsection \<open>Incremental and one-shot hashing\<close>

text \<open>
  C1. For every byte sequence and every way of splitting it into consecutive pieces,
  feeding the pieces one by one to a fresh instance and finalizing yields the same
  digest as feeding the whole sequence in a single \<open>feed\<close> call and finalizing; and a
  digest is produced. (Empty pieces are harmless, so nothing is asked of the pieces.)
\<close>

theorem incremental_equals_one_shot:
  "digest (map binstr ps) bRaw = digest [binstr (concat ps)] bRaw
   \<and> digest (map binstr ps) bRaw = Inr (fst (finalize (fed (concat ps)) bRaw))"
  using feeds_new[of ps] feeds_new[of "[concat ps]"] by (simp add: digest_def)

subsection \<open>What the instance retains between feed calls\<close>

text \<open>
  C6, as amended. After every sequence of \<open>feed\<close> calls on a fresh instance, with
  \<open>n\<close> bytes fed in all, the pending bytes are the bytes of the stream from offset
  \<open>64 * ((n - 1) div 64)\<close> on: at most 64 of them, and at least one as soon as a byte
  has been fed. Only the blocks before that offset have been compressed into the
  accumulators, so a 64-byte block completed exactly at the end of the fed data is
  retained, not compressed, until more input arrives or the hash is finalized.
\<close>

theorem pending_at_most_64:
  "\<exists>this. feeds new_Sha1 (map binstr ps) = Inr this
     \<and> pending this
         = binstr (drop (lastStart (length (concat ps))) (concat ps))
     \<and> length (pending this) = length (concat ps) - lastStart (length (concat ps))
     \<and> length (pending this) \<le> 64
     \<and> min 1 (length (concat ps)) \<le> length (pending this)
     \<and> nAccumulatedMessageLength this = length (concat ps)
     \<and> aResults this
         = fold feedBlock
             (chunk (binstr (take (lastStart (length (concat ps))) (concat ps))))
             (aResults new_Sha1)"
proof -
  define s where "s = concat ps"
  have p: "pending (fed s) = binstr (drop (lastStart (length s)) s)"
    by (rule pending_fed)
  have l: "length (pending (fed s)) = length s - lastStart (length s)"
    by (simp add: p length_binstr)
  have b: "length (pending (fed s)) \<le> 64 \<and> min 1 (length s) \<le> length (pending (fed s))"
  proof (cases "s = []")
    case True
    then show ?thesis using l by simp
  next
    case False
    then have "0 < length s" by simp
    from lastStart_tail[OF this] show ?thesis
      unfolding l by linarith
  qed
  have n: "nAccumulatedMessageLength (fed s) = length s"
    by (simp add: fed_def new_Sha1_def)
  have "feeds new_Sha1 (map binstr ps) = Inr (fed s)"
    unfolding s_def by (rule feeds_new)
  then show ?thesis
    using p l b n fed_results[of s] unfolding s_def by blast
qed

text \<open>
  C6 as stated fails: after one \<open>feed\<close> call with exactly 64 bytes the instance
  holds 64 pending bytes, not fewer, and the accumulators still have their initial
  values: the completed block has not been compressed.
\<close>

theorem pending_64_counterexample:
  "feed new_Sha1 (binstr (replicate 64 0x41)) False
     = Inr (prototype_feed new_Sha1 (binstr (replicate 64 0x41)) False)
   \<and> length (pending (prototype_feed new_Sha1 (binstr (replicate 64 0x41)) False)) = 64
   \<and> \<not> length (pending (prototype_feed new_Sha1 (binstr (replicate 64 0x41)) False)) < 64
   \<and> aResults (prototype_feed new_Sha1 (binstr (replicate 64 0x41)) False)
       = aResults new_Sha1"
proof -
  let ?bs = "replicate 64 (0x41 :: 8 word)"
  have f: "prototype_feed new_Sha1 (binstr ?bs) False = fed ?bs"
    using prototype_feed_fed[of "[]" ?bs] by (simp add: fed_def)
  have k: "lastStart (length ?bs) = 0"
    by (simp add: lastStart_def)
  have "length (pending (fed ?bs)) = 64"
    unfolding pending_fed k by (simp add: length_binstr)
  moreover have "aResults (fed ?bs) = aResults new_Sha1"
    unfolding fed_results k by (simp add: binstr_def chunk_blockAt)
  moreover have "feed new_Sha1 (binstr ?bs) False = Inr (prototype_feed new_Sha1 (binstr ?bs) False)"
    by (simp add: feed_def new_Sha1_def)
  ultimately show ?thesis
    unfolding f by simp
qed

subsection \<open>Evaluating the compression function\<close>

lemma extend_from:
  "length w = j \<Longrightarrow> 16 \<le> j \<Longrightarrow>
   fold (\<lambda>j w. set_at w j
           (leftRotate (w ! (j - 3) XOR w ! (j - 8) XOR w ! (j - 14) XOR w ! (j - 16)) 1))
        [j..<j + n] w
     = w @ schedule n (drop (j - 16) w)"
proof (induction n arbitrary: w j)
  case 0
  then show ?case by simp
next
  case (Suc n)
  let ?win = "drop (j - 16) w"
  let ?v = "leftRotate (w ! (j - 3) XOR w ! (j - 8) XOR w ! (j - 14) XOR w ! (j - 16)) 1"
  have win: "?win ! 13 = w ! (j - 3)" "?win ! 8 = w ! (j - 8)" "?win ! 2 = w ! (j - 14)"
    "?win ! 0 = w ! (j - 16)"
  proof -
    have idx: "j - 16 + 13 = j - 3" "j - 16 + 8 = j - 8" "j - 16 + 2 = j - 14"
      using Suc.prems by linarith+
    have le: "j - 16 \<le> length w"
      using Suc.prems by simp
    show "?win ! 13 = w ! (j - 3)" "?win ! 8 = w ! (j - 8)" "?win ! 2 = w ! (j - 14)"
      "?win ! 0 = w ! (j - 16)"
      using nth_drop[OF le, of 13] nth_drop[OF le, of 8] nth_drop[OF le, of 2]
        nth_drop[OF le, of 0]
      by (simp_all only: idx add_0_right)
  qed
  have up: "[j..<j + Suc n] = j # [Suc j..<Suc j + n]"
    by (simp add: upt_rec)
  have step: "set_at w j ?v = w @ [?v]"
    using Suc.prems by (simp add: set_at_def)
  have e: "Suc j - 16 = Suc (j - 16)"
    using Suc.prems by linarith
  have "drop (Suc (j - 16)) (w @ [?v]) = drop (Suc (j - 16)) w @ [?v]"
    using Suc.prems by simp
  moreover have "drop (Suc (j - 16)) w = tl ?win"
    by (simp only: drop_Suc tl_drop)
  ultimately have nxt: "drop (Suc j - 16) (w @ [?v]) = tl ?win @ [?v]"
    by (simp only: e)
  let ?F = "\<lambda>j w. set_at w j
           (leftRotate (w ! (j - 3) XOR w ! (j - 8) XOR w ! (j - 14) XOR w ! (j - 16)) 1)"
  have "fold ?F [j..<j + Suc n] w = fold ?F [Suc j..<Suc j + n] (?F j w)"
    by (simp only: up fold_simps comp_def)
  also have "?F j w = w @ [?v]"
    by (rule step)
  also have "fold ?F [Suc j..<Suc j + n] (w @ [?v])
               = (w @ [?v]) @ schedule n (drop (Suc j - 16) (w @ [?v]))"
    using Suc.prems by (intro Suc.IH) simp_all
  also have "\<dots> = w @ schedule (Suc n) ?win"
    by (simp only: nxt schedule.simps win Let_def append_assoc append_Cons append_Nil)
  finally show ?case .
qed

lemma extend_schedule:
  assumes "length b = 16"
  shows "extend b = b @ schedule 64 b"
proof -
  have a: "(16::nat) \<le> 16" by simp
  have e: "(16::nat) + 64 = 80" by simp
  show ?thesis
    unfolding extend_def using extend_from[OF assms a, of 64] unfolding e
    by (simp only: diff_self_eq_0 drop_0)
qed

lemma fold_round_step:
  "\<forall>j\<in>set js. j div 20 = q \<Longrightarrow>
   fold (round_step w) js r
     = fold (round_with (logicalFunctions ! q) (constants ! q)) (map (nth w) js) r"
  by (induction js arbitrary: r)
     (auto simp add: round_step_def round_with_def Let_def split: prod.splits)

lemma nth_upt_take_drop: "i + n \<le> length w \<Longrightarrow> map (nth w) [i..<i + n] = take n (drop i w)"
  by (rule nth_equalityI) (auto simp add: min_def)

lemma rounds_fast:
  assumes "length w = 80"
  shows "fold (round_step w) [0..<80] r = rounds80 w r"
proof -
  have split: "[0..<80] = [0..<0 + 20] @ [20..<20 + 20] @ [40..<40 + 20] @ [60..<60 + 20]"
    using upt_add_eq_append[of 0 20 60] upt_add_eq_append[of 20 40 40]
      upt_add_eq_append[of 40 60 20] by simp
  have q: "\<forall>j\<in>set [0..<0 + 20]. j div 20 = 0" "\<forall>j\<in>set [20..<20 + 20]. j div 20 = 1"
    "\<forall>j\<in>set [40..<40 + 20]. j div 20 = 2" "\<forall>j\<in>set [60..<60 + 20]. j div 20 = 3"
    by auto
  have t: "map (nth w) [0..<0 + 20] = take 20 (drop 0 w)"
    "map (nth w) [20..<20 + 20] = take 20 (drop 20 w)"
    "map (nth w) [40..<40 + 20] = take 20 (drop 40 w)"
    "map (nth w) [60..<60 + 20] = take 20 (drop 60 w)"
    using assms by (simp_all only: nth_upt_take_drop)
  show ?thesis
    unfolding split fold_append comp_def fold_round_step[OF q(1)] fold_round_step[OF q(2)]
      fold_round_step[OF q(3)] fold_round_step[OF q(4)] t rounds80_def
    by (simp only: drop_0)
qed

lemma length_schedule: "length (schedule n win) = n"
  by (induction n arbitrary: win) (simp_all add: Let_def)

lemma feedBlock_fast:
  assumes "length b = 16"
  shows "feedBlock b r =
    (case rounds80 (b @ schedule 64 b) (h0 r, h1 r, h2 r, h3 r, h4 r) of
       (nChunkA, nChunkB, nChunkC, nChunkD, nChunkE) \<Rightarrow>
         \<lparr> h0 = h0 r + nChunkA, h1 = h1 r + nChunkB, h2 = h2 r + nChunkC,
           h3 = h3 r + nChunkD, h4 = h4 r + nChunkE \<rparr>)"
proof -
  have "length (b @ schedule 64 b) = 80"
    using assms by (simp add: length_schedule)
  then show ?thesis
    unfolding feedBlock_def Let_def extend_schedule[OF assms] by (simp only: rounds_fast)
qed

lemma norm32_numeral: "norm32 (numeral k) = of_nat (unat (numeral k :: 32 word))"
  by (simp only: norm32_def of_nat_unat ucast_id)
lemma norm32_0: "norm32 0 = 0" by (simp add: norm32_def)
lemma norm32_1: "norm32 1 = 1" by (simp add: norm32_def)

lemma round_with_eval:
  "round_with f k x (a, b, c, d, e) =
     (norm32 (leftRotate a 5 + f b c d + e + k + x), a, norm32 (leftRotate b 30), c, d)"
  by (simp add: round_with_def norm32_def)

lemma schedule_numeral:
  "schedule (numeral k) win =
     sched_cons (norm32 (leftRotate (win ! 13 XOR win ! 8 XOR win ! 2 XOR win ! 0) 1))
       (pred_numeral k) win"
  by (simp only: numeral_eq_Suc[of k] schedule.simps Let_def norm32_def sched_cons_def)

lemma schedule_Suc0:
  "schedule (Suc 0) win =
     sched_cons (norm32 (leftRotate (win ! 13 XOR win ! 8 XOR win ! 2 XOR win ! 0) 1)) 0 win"
  by (simp only: schedule.simps Let_def norm32_def sched_cons_def)

lemma sched_cons_eval:
  "sched_cons (numeral v) n win = numeral v # schedule n (tl win @ [numeral v])"
  "sched_cons 0 n win = 0 # schedule n (tl win @ [0])"
  "sched_cons 1 n win = 1 # schedule n (tl win @ [1])"
  by (simp_all add: sched_cons_def)

lemma leftRotate_eval: "leftRotate x (Suc 0) = push_bit 1 x OR drop_bit 31 x"
  "leftRotate x 5 = push_bit 5 x OR drop_bit 27 x"
  "leftRotate x 30 = push_bit 30 x OR drop_bit 2 x"
  by (simp_all add: leftRotate_def shl_def ushr_def)

lemmas sha_eval = feedBlock_fast rounds80_def round_with_eval schedule_numeral schedule_Suc0 sched_cons_eval
  leftRotate_eval norm32_numeral norm32_0 norm32_1 logicalFunctions_def constants_def

lemmas sha_round_eval = rounds80_def round_with_eval leftRotate_eval norm32_numeral norm32_0
  norm32_1 logicalFunctions_def constants_def

lemma upt_0_16: "[0..<16] = [0, 1, 2, 3, 4, 5, 6, 7, 8, 9, 10, 11, 12, 13, 14, 15]"
  by code_simp

lemma upt_0_24:
  "[0..<24] = [0, 1, 2, 3, 4, 5, 6, 7, 8, 9, 10, 11, 12, 13, 14, 15, 16, 17, 18, 19, 20, 21, 22, 23]"
  by code_simp

lemma charCodeAt_replicate:
  "charCodeAt (replicate n c) k = (if k < n then ucast c else 0)"
  by (simp add: charCodeAt_def)

lemma digest_single:
  assumes "s \<noteq> []"
  shows "digest [s] False =
    Inr (formatHashHex
      \<lparr> aResults =
          fold feedBlock
            (padLastBlock
               \<lparr> aResults = fold feedBlock (butlast (chunk s)) (aResults new_Sha1),
                 aLastBlock = Some (last (chunk s)),
                 nAccumulatedMessageLength = length s,
                 feedReplaced = False \<rparr>
               (last (chunk s)))
            (fold feedBlock (butlast (chunk s)) (aResults new_Sha1)),
        aLastBlock = None,
        nAccumulatedMessageLength = length s,
        feedReplaced = True \<rparr>)"
proof -
  have "chunk s \<noteq> []"
    using assms by (cases s) (simp_all add: chunk_def)
  then show ?thesis
    using assms
    by (simp add: digest_def feed_def prototype_feed_def finalize_def feedHashWithBlocks_def
          new_Sha1_def Let_def)
qed

subsection \<open>Known-answer vectors\<close>

text \<open>The message schedule of the block of sixty-four letters \<open>A\<close>, computed once.\<close>

lemma schedule_blockA:
  "schedule 64 [1094795585, 1094795585, 1094795585, 1094795585, 1094795585, 1094795585, 1094795585, 1094795585, 1094795585, 1094795585, 1094795585, 1094795585, 1094795585, 1094795585, 1094795585, 1094795585] =
     [0, 0, 0, 2189591170, 2189591170, 2189591170, 2273806215, 2273806215, 84215045, 252645135,
     252645135, 252645135, 454761243, 454761243, 2475922323, 3149642683, 1010580540, 1010580540,
     1819044972, 1717986918, 1145324612, 3840206052, 4008636142, 4008636142, 2779096485,
     2779096485, 757935405, 2947526575, 3537031890, 3537031890, 3722304989, 2004318071,
     1313754702, 1145324612, 3840206052, 3334915782, 2021161080, 2021161080, 2694881440,
     2290649224, 2105376125, 3722304989, 656877351, 2374864269, 1431655765, 4126537205,
     2105376125, 3722304989, 1145324612, 1145324612, 3435973836, 4008636142, 2475922323,
     2475922323, 2627509404, 909522486, 454761243, 286331153, 286331153, 454761243, 1431655765,
     1431655765, 2105376125, 4126537205]"
  by (simp add: sha_eval)

lemma feedBlock_blockA:
  "feedBlock [1094795585, 1094795585, 1094795585, 1094795585, 1094795585, 1094795585, 1094795585, 1094795585, 1094795585, 1094795585, 1094795585, 1094795585, 1094795585, 1094795585, 1094795585, 1094795585] r =
    (case rounds80
       [1094795585, 1094795585, 1094795585, 1094795585, 1094795585, 1094795585, 1094795585,
       1094795585, 1094795585, 1094795585, 1094795585, 1094795585, 1094795585, 1094795585,
       1094795585, 1094795585, 0, 0, 0, 2189591170, 2189591170, 2189591170, 2273806215, 2273806215,
       84215045, 252645135, 252645135, 252645135, 454761243, 454761243, 2475922323, 3149642683,
       1010580540, 1010580540, 1819044972, 1717986918, 1145324612, 3840206052, 4008636142,
       4008636142, 2779096485, 2779096485, 757935405, 2947526575, 3537031890, 3537031890,
       3722304989, 2004318071, 1313754702, 1145324612, 3840206052, 3334915782, 2021161080,
       2021161080, 2694881440, 2290649224, 2105376125, 3722304989, 656877351, 2374864269,
       1431655765, 4126537205, 2105376125, 3722304989, 1145324612, 1145324612, 3435973836,
       4008636142, 2475922323, 2475922323, 2627509404, 909522486, 454761243, 286331153, 286331153,
       454761243, 1431655765, 1431655765, 2105376125, 4126537205]
       (h0 r, h1 r, h2 r, h3 r, h4 r) of
       (nChunkA, nChunkB, nChunkC, nChunkD, nChunkE) \<Rightarrow>
         \<lparr> h0 = h0 r + nChunkA, h1 = h1 r + nChunkB, h2 = h2 r + nChunkC,
           h3 = h3 r + nChunkD, h4 = h4 r + nChunkE \<rparr>)"
  using feedBlock_fast[of "[1094795585, 1094795585, 1094795585, 1094795585, 1094795585, 1094795585, 1094795585, 1094795585, 1094795585, 1094795585, 1094795585, 1094795585, 1094795585, 1094795585, 1094795585, 1094795585]" r]
  by (simp only: schedule_blockA list.size append.simps)

lemma blockA_0:
  "feedBlock [1094795585, 1094795585, 1094795585, 1094795585, 1094795585, 1094795585, 1094795585, 1094795585, 1094795585, 1094795585, 1094795585, 1094795585, 1094795585, 1094795585, 1094795585, 1094795585]
     \<lparr> h0 = 1732584193, h1 = 4023233417, h2 = 2562383102, h3 = 271733878, h4 = 3285377520 \<rparr>
   = \<lparr> h0 = 2418851685, h1 = 3321388769, h2 = 525436640, h3 = 911250193, h4 = 2180565172 \<rparr>"
  by (simp add: feedBlock_blockA sha_round_eval)

lemma blockA_1:
  "feedBlock [1094795585, 1094795585, 1094795585, 1094795585, 1094795585, 1094795585, 1094795585, 1094795585, 1094795585, 1094795585, 1094795585, 1094795585, 1094795585, 1094795585, 1094795585, 1094795585]
     \<lparr> h0 = 2418851685, h1 = 3321388769, h2 = 525436640, h3 = 911250193, h4 = 2180565172 \<rparr>
   = \<lparr> h0 = 1959010370, h1 = 1020543305, h2 = 2161774101, h3 = 304454454, h4 = 3166250022 \<rparr>"
  by (simp add: feedBlock_blockA sha_round_eval)

lemma blockA_2:
  "feedBlock [1094795585, 1094795585, 1094795585, 1094795585, 1094795585, 1094795585, 1094795585, 1094795585, 1094795585, 1094795585, 1094795585, 1094795585, 1094795585, 1094795585, 1094795585, 1094795585]
     \<lparr> h0 = 1959010370, h1 = 1020543305, h2 = 2161774101, h3 = 304454454, h4 = 3166250022 \<rparr>
   = \<lparr> h0 = 1718757267, h1 = 1754566705, h2 = 2658428616, h3 = 2570871084, h4 = 1780905980 \<rparr>"
  by (simp add: feedBlock_blockA sha_round_eval)

lemma blockA_3:
  "feedBlock [1094795585, 1094795585, 1094795585, 1094795585, 1094795585, 1094795585, 1094795585, 1094795585, 1094795585, 1094795585, 1094795585, 1094795585, 1094795585, 1094795585, 1094795585, 1094795585]
     \<lparr> h0 = 1718757267, h1 = 1754566705, h2 = 2658428616, h3 = 2570871084, h4 = 1780905980 \<rparr>
   = \<lparr> h0 = 1245073811, h1 = 3875672626, h2 = 2265979257, h3 = 3910921476, h4 = 2978680892 \<rparr>"
  by (simp add: feedBlock_blockA sha_round_eval)

lemma blockA_4:
  "feedBlock [1094795585, 1094795585, 1094795585, 1094795585, 1094795585, 1094795585, 1094795585, 1094795585, 1094795585, 1094795585, 1094795585, 1094795585, 1094795585, 1094795585, 1094795585, 1094795585]
     \<lparr> h0 = 1245073811, h1 = 3875672626, h2 = 2265979257, h3 = 3910921476, h4 = 2978680892 \<rparr>
   = \<lparr> h0 = 474460361, h1 = 4092873220, h2 = 1784895893, h3 = 461147875, h4 = 3978908511 \<rparr>"
  by (simp add: feedBlock_blockA sha_round_eval)

lemma blockA_5:
  "feedBlock [1094795585, 1094795585, 1094795585, 1094795585, 1094795585, 1094795585, 1094795585, 1094795585, 1094795585, 1094795585, 1094795585, 1094795585, 1094795585, 1094795585, 1094795585, 1094795585]
     \<lparr> h0 = 474460361, h1 = 4092873220, h2 = 1784895893, h3 = 461147875, h4 = 3978908511 \<rparr>
   = \<lparr> h0 = 757326621, h1 = 3547246037, h2 = 205304980, h3 = 196021192, h4 = 4044540851 \<rparr>"
  by (simp add: feedBlock_blockA sha_round_eval)

lemma blockA_6:
  "feedBlock [1094795585, 1094795585, 1094795585, 1094795585, 1094795585, 1094795585, 1094795585, 1094795585, 1094795585, 1094795585, 1094795585, 1094795585, 1094795585, 1094795585, 1094795585, 1094795585]
     \<lparr> h0 = 757326621, h1 = 3547246037, h2 = 205304980, h3 = 196021192, h4 = 4044540851 \<rparr>
   = \<lparr> h0 = 1668558631, h1 = 2291857349, h2 = 3568750885, h3 = 1435162263, h4 = 2700846593 \<rparr>"
  by (simp add: feedBlock_blockA sha_round_eval)

lemma blockA_7:
  "feedBlock [1094795585, 1094795585, 1094795585, 1094795585, 1094795585, 1094795585, 1094795585, 1094795585, 1094795585, 1094795585, 1094795585, 1094795585, 1094795585, 1094795585, 1094795585, 1094795585]
     \<lparr> h0 = 1668558631, h1 = 2291857349, h2 = 3568750885, h3 = 1435162263, h4 = 2700846593 \<rparr>
   = \<lparr> h0 = 4186265733, h1 = 1976425448, h2 = 1685384191, h3 = 2620717998, h4 = 1892976308 \<rparr>"
  by (simp add: feedBlock_blockA sha_round_eval)

lemma blockA_8:
  "feedBlock [1094795585, 1094795585, 1094795585, 1094795585, 1094795585, 1094795585, 1094795585, 1094795585, 1094795585, 1094795585, 1094795585, 1094795585, 1094795585, 1094795585, 1094795585, 1094795585]
     \<lparr> h0 = 4186265733, h1 = 1976425448, h2 = 1685384191, h3 = 2620717998, h4 = 1892976308 \<rparr>
   = \<lparr> h0 = 1131473665, h1 = 1774752563, h2 = 4014742840, h3 = 846771336, h4 = 2830778602 \<rparr>"
  by (simp add: feedBlock_blockA sha_round_eval)

lemma blockA_9:
  "feedBlock [1094795585, 1094795585, 1094795585, 1094795585, 1094795585, 1094795585, 1094795585, 1094795585, 1094795585, 1094795585, 1094795585, 1094795585, 1094795585, 1094795585, 1094795585, 1094795585]
     \<lparr> h0 = 1131473665, h1 = 1774752563, h2 = 4014742840, h3 = 846771336, h4 = 2830778602 \<rparr>
   = \<lparr> h0 = 1346092480, h1 = 1542005722, h2 = 220102630, h3 = 2446182313, h4 = 2874435876 \<rparr>"
  by (simp add: feedBlock_blockA sha_round_eval)

lemma blockA_10:
  "feedBlock [1094795585, 1094795585, 1094795585, 1094795585, 1094795585, 1094795585, 1094795585, 1094795585, 1094795585, 1094795585, 1094795585, 1094795585, 1094795585, 1094795585, 1094795585, 1094795585]
     \<lparr> h0 = 1346092480, h1 = 1542005722, h2 = 220102630, h3 = 2446182313, h4 = 2874435876 \<rparr>
   = \<lparr> h0 = 1226382994, h1 = 2068439714, h2 = 3395056614, h3 = 3245108202, h4 = 3727703461 \<rparr>"
  by (simp add: feedBlock_blockA sha_round_eval)

lemma blockA_11:
  "feedBlock [1094795585, 1094795585, 1094795585, 1094795585, 1094795585, 1094795585, 1094795585, 1094795585, 1094795585, 1094795585, 1094795585, 1094795585, 1094795585, 1094795585, 1094795585, 1094795585]
     \<lparr> h0 = 1226382994, h1 = 2068439714, h2 = 3395056614, h3 = 3245108202, h4 = 3727703461 \<rparr>
   = \<lparr> h0 = 74634934, h1 = 1365914005, h2 = 1234130816, h3 = 3164971613, h4 = 3803271705 \<rparr>"
  by (simp add: feedBlock_blockA sha_round_eval)

lemma blockA_12:
  "feedBlock [1094795585, 1094795585, 1094795585, 1094795585, 1094795585, 1094795585, 1094795585, 1094795585, 1094795585, 1094795585, 1094795585, 1094795585, 1094795585, 1094795585, 1094795585, 1094795585]
     \<lparr> h0 = 74634934, h1 = 1365914005, h2 = 1234130816, h3 = 3164971613, h4 = 3803271705 \<rparr>
   = \<lparr> h0 = 368885250, h1 = 3502047542, h2 = 1472244044, h3 = 1683715122, h4 = 3363339032 \<rparr>"
  by (simp add: feedBlock_blockA sha_round_eval)

lemma blockA_13:
  "feedBlock [1094795585, 1094795585, 1094795585, 1094795585, 1094795585, 1094795585, 1094795585, 1094795585, 1094795585, 1094795585, 1094795585, 1094795585, 1094795585, 1094795585, 1094795585, 1094795585]
     \<lparr> h0 = 368885250, h1 = 3502047542, h2 = 1472244044, h3 = 1683715122, h4 = 3363339032 \<rparr>
   = \<lparr> h0 = 214918815, h1 = 3091512343, h2 = 123335941, h3 = 35199567, h4 = 1667786582 \<rparr>"
  by (simp add: feedBlock_blockA sha_round_eval)

lemma blockA_14:
  "feedBlock [1094795585, 1094795585, 1094795585, 1094795585, 1094795585, 1094795585, 1094795585, 1094795585, 1094795585, 1094795585, 1094795585, 1094795585, 1094795585, 1094795585, 1094795585, 1094795585]
     \<lparr> h0 = 214918815, h1 = 3091512343, h2 = 123335941, h3 = 35199567, h4 = 1667786582 \<rparr>
   = \<lparr> h0 = 2165069622, h1 = 2858089437, h2 = 83014311, h3 = 2338547731, h4 = 2884760048 \<rparr>"
  by (simp add: feedBlock_blockA sha_round_eval)

lemma blockA_15:
  "feedBlock [1094795585, 1094795585, 1094795585, 1094795585, 1094795585, 1094795585, 1094795585, 1094795585, 1094795585, 1094795585, 1094795585, 1094795585, 1094795585, 1094795585, 1094795585, 1094795585]
     \<lparr> h0 = 2165069622, h1 = 2858089437, h2 = 83014311, h3 = 2338547731, h4 = 2884760048 \<rparr>
   = \<lparr> h0 = 2420122717, h1 = 719509778, h2 = 991997669, h3 = 300861377, h4 = 2281430968 \<rparr>"
  by (simp add: feedBlock_blockA sha_round_eval)

lemma blockA_16:
  "feedBlock [1094795585, 1094795585, 1094795585, 1094795585, 1094795585, 1094795585, 1094795585, 1094795585, 1094795585, 1094795585, 1094795585, 1094795585, 1094795585, 1094795585, 1094795585, 1094795585]
     \<lparr> h0 = 2420122717, h1 = 719509778, h2 = 991997669, h3 = 300861377, h4 = 2281430968 \<rparr>
   = \<lparr> h0 = 1969807436, h1 = 3354938420, h2 = 3177734336, h3 = 910121108, h4 = 4266593546 \<rparr>"
  by (simp add: feedBlock_blockA sha_round_eval)

lemma blockA_17:
  "feedBlock [1094795585, 1094795585, 1094795585, 1094795585, 1094795585, 1094795585, 1094795585, 1094795585, 1094795585, 1094795585, 1094795585, 1094795585, 1094795585, 1094795585, 1094795585, 1094795585]
     \<lparr> h0 = 1969807436, h1 = 3354938420, h2 = 3177734336, h3 = 910121108, h4 = 4266593546 \<rparr>
   = \<lparr> h0 = 3274377465, h1 = 1639961327, h2 = 916812268, h3 = 53519546, h4 = 3179425286 \<rparr>"
  by (simp add: feedBlock_blockA sha_round_eval)

lemma blockA_18:
  "feedBlock [1094795585, 1094795585, 1094795585, 1094795585, 1094795585, 1094795585, 1094795585, 1094795585, 1094795585, 1094795585, 1094795585, 1094795585, 1094795585, 1094795585, 1094795585, 1094795585]
     \<lparr> h0 = 3274377465, h1 = 1639961327, h2 = 916812268, h3 = 53519546, h4 = 3179425286 \<rparr>
   = \<lparr> h0 = 3793705216, h1 = 1925233670, h2 = 3097369309, h3 = 2186543683, h4 = 771757727 \<rparr>"
  by (simp add: feedBlock_blockA sha_round_eval)

lemma blockA_19:
  "feedBlock [1094795585, 1094795585, 1094795585, 1094795585, 1094795585, 1094795585, 1094795585, 1094795585, 1094795585, 1094795585, 1094795585, 1094795585, 1094795585, 1094795585, 1094795585, 1094795585]
     \<lparr> h0 = 3793705216, h1 = 1925233670, h2 = 3097369309, h3 = 2186543683, h4 = 771757727 \<rparr>
   = \<lparr> h0 = 3869810389, h1 = 3228261824, h2 = 3514426991, h3 = 1596295286, h4 = 1876645058 \<rparr>"
  by (simp add: feedBlock_blockA sha_round_eval)

lemma blockA_20:
  "feedBlock [1094795585, 1094795585, 1094795585, 1094795585, 1094795585, 1094795585, 1094795585, 1094795585, 1094795585, 1094795585, 1094795585, 1094795585, 1094795585, 1094795585, 1094795585, 1094795585]
     \<lparr> h0 = 3869810389, h1 = 3228261824, h2 = 3514426991, h3 = 1596295286, h4 = 1876645058 \<rparr>
   = \<lparr> h0 = 691672706, h1 = 1399451318, h2 = 515444817, h3 = 1974434615, h4 = 156050823 \<rparr>"
  by (simp add: feedBlock_blockA sha_round_eval)

lemma blockA_21:
  "feedBlock [1094795585, 1094795585, 1094795585, 1094795585, 1094795585, 1094795585, 1094795585, 1094795585, 1094795585, 1094795585, 1094795585, 1094795585, 1094795585, 1094795585, 1094795585, 1094795585]
     \<lparr> h0 = 691672706, h1 = 1399451318, h2 = 515444817, h3 = 1974434615, h4 = 156050823 \<rparr>
   = \<lparr> h0 = 3863204462, h1 = 3379360995, h2 = 586207344, h3 = 3498696185, h4 = 2566197918 \<rparr>"
  by (simp add: feedBlock_blockA sha_round_eval)

lemma blockA_22:
  "feedBlock [1094795585, 1094795585, 1094795585, 1094795585, 1094795585, 1094795585, 1094795585, 1094795585, 1094795585, 1094795585, 1094795585, 1094795585, 1094795585, 1094795585, 1094795585, 1094795585]
     \<lparr> h0 = 3863204462, h1 = 3379360995, h2 = 586207344, h3 = 3498696185, h4 = 2566197918 \<rparr>
   = \<lparr> h0 = 1149926963, h1 = 443061606, h2 = 1594018931, h3 = 2383227850, h4 = 3998232692 \<rparr>"
  by (simp add: feedBlock_blockA sha_round_eval)

lemma block_final_A:
  "feedBlock [1094795585, 1094795585, 1094795585, 1094795585, 1094795585, 1094795585, 1094795585, 2147483648, 0, 0, 0, 0, 0, 0, 0, 12000]
     \<lparr> h0 = 1149926963, h1 = 443061606, h2 = 1594018931, h3 = 2383227850, h4 = 3998232692 \<rparr>
   = \<lparr> h0 = 2817934548, h1 = 2780324611, h2 = 2108213981, h3 = 778658830, h4 = 4091314254 \<rparr>"
  by (simp add: sha_eval)

lemma block_abcdef:
  "feedBlock [1633837924, 1701216256, 0, 0, 0, 0, 0, 0, 0, 0, 0, 0, 0, 0, 0, 48]
     \<lparr> h0 = 1732584193, h1 = 4023233417, h2 = 2562383102, h3 = 271733878, h4 = 3285377520 \<rparr>
   = \<lparr> h0 = 529187087, h1 = 600159676, h2 = 292011432, h3 = 1266892380, h4 = 91912146 \<rparr>"
  by (simp add: sha_eval)

lemmas blocksA = blockA_0 blockA_1 blockA_2 blockA_3 blockA_4 blockA_5 blockA_6 blockA_7 blockA_8 blockA_9 blockA_10 blockA_11 blockA_12 blockA_13 blockA_14 blockA_15 blockA_16 blockA_17 blockA_18 blockA_19 blockA_20 blockA_21 blockA_22

lemma chunk_abcdef:
  "chunk (jsstr ''abcdef'') = [[1633837924, 1701183488, 0, 0, 0, 0, 0, 0, 0, 0, 0, 0, 0, 0, 0, 0]]"
  by (simp add: jsstr_def chunk_def charCodeAt_def shl_def upt_0_16)

lemma chunk_A1500:
  "chunk (jsstr (replicate 1500 CHR ''A'')) =
     replicate 23 (replicate 16 1094795585) @
     [[1094795585, 1094795585, 1094795585, 1094795585, 1094795585, 1094795585, 1094795585,
       0, 0, 0, 0, 0, 0, 0, 0, 0]]"
  by (simp add: jsstr_def chunk_def charCodeAt_replicate shl_def upt_0_16 upt_0_24)
     (simp add: numeral_eq_Suc)

lemma length_abcdef: "length (jsstr ''abcdef'') = 6"
  by (simp add: jsstr_def)

lemma length_A1500: "length (jsstr (replicate 1500 CHR ''A'')) = 1500"
  by (simp add: jsstr_def)

lemma pad_abcdef:
  "padLastBlock \<lparr> aResults = r, aLastBlock = x, nAccumulatedMessageLength = 6, feedReplaced = f \<rparr>
     [1633837924, 1701183488, 0, 0, 0, 0, 0, 0, 0, 0, 0, 0, 0, 0, 0, 0]
   = [[1633837924, 1701216256, 0, 0, 0, 0, 0, 0, 0, 0, 0, 0, 0, 0, 0, 48]]"
  by (simp add: padLastBlock_def set_at_def shl_def createEmptyBlock_def Let_def)

lemma pad_A1500:
  "padLastBlock \<lparr> aResults = r, aLastBlock = x, nAccumulatedMessageLength = 1500, feedReplaced = f \<rparr>
     [1094795585, 1094795585, 1094795585, 1094795585, 1094795585, 1094795585, 1094795585,
      0, 0, 0, 0, 0, 0, 0, 0, 0]
   = [[1094795585, 1094795585, 1094795585, 1094795585, 1094795585, 1094795585, 1094795585,
       2147483648, 0, 0, 0, 0, 0, 0, 0, 12000]]"
  by (simp add: padLastBlock_def set_at_def shl_def createEmptyBlock_def Let_def)

lemma hex_abcdef:
  "formatHashHex \<lparr> aResults = \<lparr> h0 = 529187087, h1 = 600159676, h2 = 292011432, h3 = 1266892380, h4 = 91912146 \<rparr>,
      aLastBlock = x, nAccumulatedMessageLength = n, feedReplaced = f \<rparr>
   = jsstr ''1f8ac10f23c5b5bc1167bda84b833e5c057a77d2''"
  by (simp add: formatHashHex_def binaryToHexString_def toString16_def upt_0_8 ushr_def hexdigits)
     (simp add: jsstr_def)

lemma hex_A1500:
  "formatHashHex \<lparr> aResults = \<lparr> h0 = 2817934548, h1 = 2780324611, h2 = 2108213981, h3 = 778658830, h4 = 4091314254 \<rparr>,
      aLastBlock = x, nAccumulatedMessageLength = n, feedReplaced = f \<rparr>
   = jsstr ''a7f644d4a5b863037da8cadd2e69640ef3dc804e''"
  by (simp add: formatHashHex_def binaryToHexString_def toString16_def upt_0_8 ushr_def hexdigits)
     (simp add: jsstr_def)

lemma fold_blocksA:
  "(feedBlock (replicate 16 1094795585) ^^ 23) (aResults new_Sha1)
     = \<lparr> h0 = 1149926963, h1 = 443061606, h2 = 1594018931, h3 = 2383227850, h4 = 3998232692 \<rparr>"
  by (simp add: numeral_eq_Suc new_Sha1_def blocksA)

text \<open>
  C2. Feeding the six-byte string \<open>abcdef\<close> to a fresh instance and finalizing
  returns \<open>1f8ac10f23c5b5bc1167bda84b833e5c057a77d2\<close>; feeding the 1500-byte string
  of repeated \<open>A\<close> returns \<open>a7f644d4a5b863037da8cadd2e69640ef3dc804e\<close>.
\<close>

theorem known_answer_vectors:
  "digest [jsstr ''abcdef''] False = Inr (jsstr ''1f8ac10f23c5b5bc1167bda84b833e5c057a77d2'')
   \<and> digest [jsstr (replicate 1500 CHR ''A'')] False
       = Inr (jsstr ''a7f644d4a5b863037da8cadd2e69640ef3dc804e'')"
proof
  have "jsstr ''abcdef'' \<noteq> []"
    by (simp add: jsstr_def)
  from digest_single[OF this]
  show "digest [jsstr ''abcdef''] False = Inr (jsstr ''1f8ac10f23c5b5bc1167bda84b833e5c057a77d2'')"
    by (simp add: chunk_abcdef length_abcdef pad_abcdef new_Sha1_def block_abcdef hex_abcdef)
next
  have "jsstr (replicate 1500 CHR ''A'') \<noteq> []"
    by (simp add: jsstr_def)
  from digest_single[OF this]
  show "digest [jsstr (replicate 1500 CHR ''A'')] False
          = Inr (jsstr ''a7f644d4a5b863037da8cadd2e69640ef3dc804e'')"
    by (simp add: chunk_A1500 length_A1500 pad_A1500 fold_blocksA block_final_A hex_A1500)
qed

end
